theory Spec2Isabelle
  imports Complex_Main "HOL-Library.Sublist" "HOL-Library.List_Lexorder" "HOL-Library.Char_ord"
begin

section \<open>Values, errors and time\<close>

text \<open>
  The task backend of \<^verbatim>\<open>pulsar/apps/tasks/backend.py\<close>. Python exceptions are values
  of \<open>error\<close>; a computation that may raise returns \<open>error + 'a\<close> with \<open>Inl\<close> the
  exception. \<open>JobError\<close> stands for any exception a job callable raises that is a subclass of
  \<^verbatim>\<open>Exception\<close> other than those named here.
\<close>

datatype error =
    NameError string
  | AttributeError string
  | KeyError string
  | TypeError
  | ZeroDivisionError
  | RuntimeError
  | UnpicklingError
  | TaskNotAvailable string
  | TaskTimeout
  | JobError string

text \<open>
  A \<^verbatim>\<open>datetime\<close> is a number of microseconds since the epoch and a \<^verbatim>\<open>timedelta\<close> a
  number of microseconds, both exact integers as in Python. \<^verbatim>\<open>total_seconds()\<close> divides by
  \<open>10^6\<close>; the float it returns is modelled by the exact real quotient.
\<close>

type_synonym datetime = int
type_synonym timedelta = int

definition seconds :: "int \<Rightarrow> timedelta" where
  "seconds n = n * 1000000"

definition total_seconds :: "timedelta \<Rightarrow> real" where
  "total_seconds delta = real_of_int delta / 1000000"

definition timedelta_seconds :: "timedelta \<Rightarrow> real" where
  "timedelta_seconds delta = max (total_seconds delta) 0"

section \<open>Schedule\<close>

record schedule =
  run_every :: timedelta
  anchor :: "datetime option"

text \<open>
  \<^verbatim>\<open>Schedule.is_due(last_run_at, now=None)\<close>. The module imports only \<^verbatim>\<open>timedelta\<close> from
  \<^verbatim>\<open>datetime\<close>, so \<^verbatim>\<open>now or datetime.now()\<close> raises \<^verbatim>\<open>NameError\<close> when \<^verbatim>\<open>now\<close> is
  not given; a given \<^verbatim>\<open>datetime\<close> is always true.
\<close>

definition is_due :: "schedule \<Rightarrow> datetime \<Rightarrow> datetime option \<Rightarrow> error + (bool \<times> real)" where
  "is_due s last_run_at now =
     (case now of
        None \<Rightarrow> Inl (NameError ''datetime'')
      | Some n \<Rightarrow>
          (let rem_delta = last_run_at + run_every s - n;
               rem = timedelta_seconds rem_delta
           in if rem = 0 then Inr (True, timedelta_seconds (run_every s))
              else Inr (False, rem)))"

section \<open>Python values and task records\<close>

text \<open>
  Keyword arguments are a Python \<^verbatim>\<open>dict\<close>: an association list in the order the caller
  supplied the keys, with distinct keys. A keyword value is modelled by the text that
  \<^verbatim>\<open>'%s' % value\<close> gives for it, the only use the backend makes of it.
\<close>

type_synonym kwargs = "(string \<times> string) list"

datatype val = VNone | VInt int | VFloat real | VStr string | VPickle kwargs

fun truthy :: "val \<Rightarrow> bool" where
  "truthy VNone = False"
| "truthy (VInt i) = (i \<noteq> 0)"
| "truthy (VFloat r) = (r \<noteq> 0)"
| "truthy (VStr s) = (s \<noteq> [])"
| "truthy (VPickle k) = True"

text \<open>
  \<^verbatim>\<open>Task\<close> is a dictionary-like model: the code reads \<^verbatim>\<open>task['id']\<close>,
  \<^verbatim>\<open>task.get('name')\<close> and calls \<^verbatim>\<open>task.update\<close>. It is a map from field names to values.
\<close>

type_synonym task = "string \<rightharpoonup> val"

definition getitem :: "task \<Rightarrow> string \<Rightarrow> error + val" where
  "getitem t k = (case t k of None \<Rightarrow> Inl (KeyError k) | Some v \<Rightarrow> Inr v)"

definition get :: "task \<Rightarrow> string \<Rightarrow> val" where
  "get t k = (case t k of None \<Rightarrow> VNone | Some v \<Rightarrow> v)"

text \<open>
  The status codes live in the module \<^verbatim>\<open>states\<close>, which is not among the sources: the
  functions below take the table \<open>codes\<close> from status names to integer codes as a parameter.
\<close>

datatype status = PENDING | QUEUED | RETRY | STARTED | REVOKED | UNKNOWN | FAILURE | SUCCESS

text \<open>\<^verbatim>\<open>task['status'] > states.STARTED\<close>; comparing a non-number raises \<^verbatim>\<open>TypeError\<close>.\<close>

fun gt_int :: "val \<Rightarrow> int \<Rightarrow> error + bool" where
  "gt_int (VInt i) c = Inr (c < i)"
| "gt_int (VFloat r) c = Inr (real_of_int c < r)"
| "gt_int v c = Inl TypeError"

text \<open>\<^verbatim>\<open>time_ended > task['expiry']\<close>.\<close>

fun float_gt :: "real \<Rightarrow> val \<Rightarrow> error + bool" where
  "float_gt t (VFloat e) = Inr (e < t)"
| "float_gt t (VInt i) = Inr (real_of_int i < t)"
| "float_gt t v = Inl TypeError"

text \<open>
  \<^verbatim>\<open>Task.info\<close> reads the global name \<^verbatim>\<open>task\<close> where it means \<^verbatim>\<open>self\<close>; the module defines
  no such name, so every call raises \<^verbatim>\<open>NameError\<close>.
\<close>

definition task_info :: "task \<Rightarrow> error + string" where
  "task_info self = Inl (NameError ''task'')"

text \<open>
  \<^verbatim>\<open>Task.done\<close>: \<^verbatim>\<open>self.get('state') in self.READY_STATES\<close>. The class body under the
  sources defines no \<^verbatim>\<open>READY_STATES\<close>; the parameter is \<open>None\<close> when the attribute
  is missing (\<^verbatim>\<open>AttributeError\<close>) and the collection otherwise.
\<close>

definition task_done :: "val list option \<Rightarrow> task \<Rightarrow> error + bool" where
  "task_done ready_states self =
     (case ready_states of
        None \<Rightarrow> Inl (AttributeError ''READY_STATES'')
      | Some rs \<Rightarrow> Inr (get self ''state'' \<in> set rs))"

definition load_kwargs :: "task \<Rightarrow> error + kwargs" where
  "load_kwargs self =
     (case get self ''kwargs'' of
        VPickle k \<Rightarrow> Inr k
      | v \<Rightarrow> if truthy v then Inl UnpicklingError else Inr [])"

section \<open>Scheduler entries\<close>

record entry =
  entry_name :: string
  sched :: schedule
  last_run_at :: datetime
  total_run_count :: int

text \<open>
  The two \<^verbatim>\<open>while\<close> loops of \<^verbatim>\<open>scheduled_last_run_at\<close>. They are reached only after the
  division by \<^verbatim>\<open>timedelta_seconds(run_every)\<close>, which raises for an interval that is not
  positive; the guard \<open>0 < re\<close> records that and makes the recursion total.
\<close>

function advance :: "datetime \<Rightarrow> datetime \<Rightarrow> timedelta \<Rightarrow> datetime" where
  "advance a l re = (if a \<le> l \<and> 0 < re then advance (a + re) l re else a)"
  by pat_completeness auto
termination
  by (relation "measure (\<lambda>(a, l, re). nat (l + 1 - a))") auto

function retreat :: "datetime \<Rightarrow> datetime \<Rightarrow> timedelta \<Rightarrow> datetime" where
  "retreat a l re = (if l < a \<and> 0 < re then retreat (a - re) l re else a)"
  by pat_completeness auto
termination
  by (relation "measure (\<lambda>(a, l, re). nat (a - l))") auto

text \<open>
  \<^verbatim>\<open>SchedulerEntry.scheduled_last_run_at\<close>; it stores the moved anchor in the schedule, so
  the entry is returned as well.
\<close>

definition scheduled_last_run_at :: "entry \<Rightarrow> (error + datetime) \<times> entry" where
  "scheduled_last_run_at self =
     (case anchor (sched self) of
        None \<Rightarrow> (Inr (last_run_at self), self)
      | Some a \<Rightarrow>
          if timedelta_seconds (run_every (sched self)) = 0 then (Inl ZeroDivisionError, self)
          else
            (let times = \<lfloor>timedelta_seconds (last_run_at self - a)
                          / timedelta_seconds (run_every (sched self))\<rfloor>
             in if times \<noteq> 0 then
                  (let a1 = a + times * run_every (sched self);
                       a2 = advance a1 (last_run_at self) (run_every (sched self));
                       a3 = retreat a2 (last_run_at self) (run_every (sched self))
                   in (Inr a3, self\<lparr>sched := (sched self)\<lparr>anchor := Some a3\<rparr>\<rparr>))
                else (Inr a, self)))"

definition entry_is_due :: "entry \<Rightarrow> datetime option \<Rightarrow> (error + (bool \<times> real)) \<times> entry" where
  "entry_is_due self now =
     (case scheduled_last_run_at self of
        (Inl e, self') \<Rightarrow> (Inl e, self')
      | (Inr l, self') \<Rightarrow> (is_due (sched self') l now, self'))"

text \<open>\<^verbatim>\<open>SchedulerEntry.next(now=None)\<close>; \<^verbatim>\<open>datetime\<close> is not imported here either.\<close>

definition entry_next :: "entry \<Rightarrow> datetime option \<Rightarrow> error + entry" where
  "entry_next self now =
     (case now of
        None \<Rightarrow> Inl (NameError ''datetime'')
      | Some n \<Rightarrow> Inr (self\<lparr>last_run_at := n, total_run_count := total_run_count self + 1\<rparr>))"

section \<open>Jobs, worker, store and backend\<close>

datatype overlap = Flag bool | Pred "(string \<rightharpoonup> string) \<Rightarrow> bool"

record job =
  job_name :: string
  timeout :: "real option"
  can_overlap :: overlap
  call :: "val \<Rightarrow> kwargs \<Rightarrow> error + val"

record worker =
  running :: bool
  thread_pool :: bool
  aid :: string

text \<open>
  The store as the backend uses it: the hash of locks, one hash per task, and the two
  queues. The trace lists, in program order, what the backend wrote and published, which
  task it polled and handed to the pool, which job body it called and what it logged as an
  exception; it is how a statement about a sequence of effects is made.
\<close>

record store =
  locks :: "val \<rightharpoonup> val"
  tasks :: "val \<rightharpoonup> task"
  inqueue :: "val list"
  outqueue :: "val list"

datatype event =
    Saved val task
  | Published string val
  | Polled "val option"
  | Applied val
  | Invoked string val kwargs
  | Fired val task
  | LoggedException error

datatype deferred = Deferred

datatype clock = Epoch real | Datetime datetime

record backend =
  name :: string
  backlog :: int
  max_tasks :: int
  poll_timeout :: real
  processed :: int
  schedule_periodic :: bool
  next_run :: clock
  concurrent_tasks :: "val set"
  callbacks :: "val \<rightharpoonup> deferred"
  entries :: "(string \<times> entry) list"
  registry :: "string \<rightharpoonup> job"
  store :: store
  trace :: "event list"

text \<open>
  \<^verbatim>\<open>TaskBackend.__init__\<close>. The store, the registry and the scheduler entries are the
  values of the lazy properties of the same names; \<open>now\<close> is \<^verbatim>\<open>time.time()\<close>.
\<close>

definition init :: "store \<Rightarrow> (string \<rightharpoonup> job) \<Rightarrow> (string \<times> entry) list \<Rightarrow> real \<Rightarrow>
    bool \<Rightarrow> int \<Rightarrow> int \<Rightarrow> string \<Rightarrow> real option \<Rightarrow> backend" where
  "init st reg es now schedule_periodic' backlog' max_tasks' name' poll_timeout' =
     \<lparr>name = name',
      backlog = backlog',
      max_tasks = max_tasks',
      poll_timeout = max (case poll_timeout' of None \<Rightarrow> 0 | Some p \<Rightarrow> if p \<noteq> 0 then p else 0) 2,
      processed = 0,
      schedule_periodic = schedule_periodic',
      next_run = Epoch now,
      concurrent_tasks = {},
      callbacks = Map.empty,
      entries = es,
      registry = reg,
      store = st,
      trace = []\<rparr>"

definition num_concurrent_tasks :: "backend \<Rightarrow> int" where
  "num_concurrent_tasks self = int (card (concurrent_tasks self))"

definition channel :: "backend \<Rightarrow> string \<Rightarrow> string" where
  "channel self nm = name self @ ''_'' @ nm"

subsection \<open>Store commands\<close>

definition hsetnx :: "val \<Rightarrow> val \<Rightarrow> store \<Rightarrow> bool \<times> store" where
  "hsetnx k v s =
     (case locks s k of
        None \<Rightarrow> (True, s\<lparr>locks := (locks s)(k \<mapsto> v)\<rparr>)
      | Some _ \<Rightarrow> (False, s))"

definition hmset :: "val \<Rightarrow> task \<Rightarrow> store \<Rightarrow> store" where
  "hmset k params s =
     s\<lparr>tasks := (tasks s)(k \<mapsto> (case tasks s k of None \<Rightarrow> params | Some old \<Rightarrow> old ++ params))\<rparr>"

definition lpush :: "val \<Rightarrow> store \<Rightarrow> store" where
  "lpush v s = s\<lparr>inqueue := v # inqueue s\<rparr>"

definition brpoplpush :: "store \<Rightarrow> val option \<times> store" where
  "brpoplpush s =
     (if inqueue s = [] then (None, s)
      else (Some (last (inqueue s)),
            s\<lparr>inqueue := butlast (inqueue s), outqueue := last (inqueue s) # outqueue s\<rparr>))"

definition hgetall :: "val \<Rightarrow> store \<Rightarrow> task option" where
  "hgetall k s =
     (case tasks s k of None \<Rightarrow> None | Some t \<Rightarrow> if t = Map.empty then None else Some t)"

definition publish :: "string \<Rightarrow> val \<Rightarrow> backend \<Rightarrow> backend" where
  "publish ch msg self = self\<lparr>trace := trace self @ [Published ch msg]\<rparr>"

definition save_task :: "val \<Rightarrow> (string \<times> val) list \<Rightarrow> backend \<Rightarrow> backend" where
  "save_task task_id params self =
     self\<lparr>store := hmset task_id (map_of params) (store self),
          trace := trace self @ [Saved task_id (map_of params)]\<rparr>"

text \<open>\<^verbatim>\<open>PulsarTaskBackend.get_task\<close>: without a task id it pops the next id from the queue.\<close>

definition get_task :: "val option \<Rightarrow> backend \<Rightarrow> task option \<times> backend" where
  "get_task task_id self =
     (if (case task_id of None \<Rightarrow> True | Some v \<Rightarrow> \<not> truthy v) then
        (case brpoplpush (store self) of
           (popped, s) \<Rightarrow>
             (let self' = self\<lparr>store := s, trace := trace self @ [Polled popped]\<rparr>
              in case popped of
                   None \<Rightarrow> (None, self')
                 | Some v \<Rightarrow> if truthy v then (hgetall v s, self') else (None, self')))
      else (case task_id of None \<Rightarrow> (None, self) | Some v \<Rightarrow> (hgetall v (store self), self)))"

definition empty_store :: store where
  "empty_store = \<lparr>locks = Map.empty, tasks = Map.empty, inqueue = [], outqueue = []\<rparr>"

section \<open>Queuing\<close>

fun join :: "string \<Rightarrow> string list \<Rightarrow> string" where
  "join sep [] = []"
| "join sep [x] = x"
| "join sep (x # y # zs) = x @ sep @ join sep (y # zs)"

text \<open>\<^verbatim>\<open>kwargs[k]\<close> for a key \<open>k\<close> of the dictionary.\<close>

definition kwarg :: "kwargs \<Rightarrow> string \<Rightarrow> string" where
  "kwarg kw k = (case map_of kw k of None \<Rightarrow> [] | Some v \<Rightarrow> v)"

text \<open>
  The string that \<^verbatim>\<open>generate_task_ids\<close> hashes:
  \<^verbatim>\<open>'%s %s' % (self.name, ', '.join('%s=%s' % (k, kwargs[k]) for k in sorted(kwargs)))\<close>,
  or the backend name alone for empty arguments.
\<close>

definition lock_name :: "backend \<Rightarrow> kwargs \<Rightarrow> string" where
  "lock_name self kw =
     (if kw \<noteq> [] then
        name self @ '' '' @ join '', '' (map (\<lambda>k. k @ ''='' @ kwarg kw k) (sort (map fst kw)))
      else name self)"

text \<open>
  \<^verbatim>\<open>can_overlap\<close> of a job is a flag, or a callable that is given the keyword arguments.
\<close>

definition resolve_overlap :: "job \<Rightarrow> kwargs \<Rightarrow> bool" where
  "resolve_overlap jb kw = (case can_overlap jb of Flag f \<Rightarrow> f | Pred p \<Rightarrow> p (map_of kw))"

text \<open>
  \<^verbatim>\<open>generate_task_ids\<close>. \<open>sha1\<close> is the hexadecimal SHA-1 digest and \<open>uid\<close> the value
  of \<^verbatim>\<open>gen_unique_id()\<close> for this call, both parameters.
\<close>

definition generate_task_ids ::
    "(string \<Rightarrow> string) \<Rightarrow> string \<Rightarrow> backend \<Rightarrow> job \<Rightarrow> kwargs \<Rightarrow> string \<times> string option" where
  "generate_task_ids sha1 uid self jb kw =
     (let tid = take 8 uid
      in if resolve_overlap jb kw then (tid, None)
         else (tid, Some (sha1 (lock_name self kw))))"

text \<open>\<^verbatim>\<open>PulsarTaskBackend.maybe_queue_task\<close>.\<close>

definition maybe_queue_task :: "task \<Rightarrow> backend \<Rightarrow> (error + task option) \<times> backend" where
  "maybe_queue_task t self =
     (case getitem t ''lock_id'' of
        Inl e \<Rightarrow> (Inl e, self)
      | Inr lock_id \<Rightarrow>
          (case getitem t ''id'' of
             Inl e \<Rightarrow> (Inl e, self)
           | Inr task_id \<Rightarrow>
               (case (if truthy lock_id then hsetnx lock_id task_id (store self)
                      else (True, store self)) of
                  (free, s) \<Rightarrow>
                    if free then
                      (Inr (Some t),
                       self\<lparr>store := lpush task_id (hmset task_id t s),
                            trace := trace self @ [Saved task_id t]\<rparr>)
                    else (Inr None, self\<lparr>store := s\<rparr>))))"

definition get_time :: "real \<Rightarrow> real \<Rightarrow> real" where
  "get_time expiry start = start + expiry"

text \<open>
  The parts of \<^verbatim>\<open>TaskBackend.queue_task\<close>, in the order of the source: the expiry, the
  \<^verbatim>\<open>Task\<close> built with status \<^verbatim>\<open>QUEUED\<close> and updated with \<^verbatim>\<open>meta_params\<close>, and the branch
  taken when the task was queued, which publishes \<^verbatim>\<open>task_queued\<close> and advances the entry
  of a periodic job with \<^verbatim>\<open>next()\<close>, called without a time.
\<close>

definition task_expiry :: "real option \<Rightarrow> job \<Rightarrow> real \<Rightarrow> val" where
  "task_expiry expiry jb queued =
     (case expiry of
        Some e \<Rightarrow> VFloat (get_time e queued)
      | None \<Rightarrow>
          (case timeout jb of
             None \<Rightarrow> VNone
           | Some tm \<Rightarrow> if tm \<noteq> 0 then VFloat (get_time tm queued) else VNone))"

definition make_task ::
    "(status \<Rightarrow> int) \<Rightarrow> string \<Rightarrow> string option \<Rightarrow> job \<Rightarrow> real \<Rightarrow> val \<Rightarrow> kwargs \<Rightarrow>
     (string \<times> val) list \<Rightarrow> task" where
  "make_task codes task_id lock_id jb queued expiry kw meta_params =
     (let t = [''id'' \<mapsto> VStr task_id,
               ''lock_id'' \<mapsto> (case lock_id of None \<Rightarrow> VNone | Some l \<Rightarrow> VStr l),
               ''name'' \<mapsto> VStr (job_name jb),
               ''time_queued'' \<mapsto> VFloat queued,
               ''expiry'' \<mapsto> expiry,
               ''kwargs'' \<mapsto> VPickle kw,
               ''status'' \<mapsto> VInt (codes QUEUED)]
      in if meta_params \<noteq> [] then t ++ map_of meta_params else t)"

definition task_queued :: "job \<Rightarrow> task \<Rightarrow> backend \<Rightarrow> (error + task option) \<times> backend" where
  "task_queued jb t self =
     (case getitem t ''id'' of
        Inl e \<Rightarrow> (Inl e, self)
      | Inr tid \<Rightarrow>
          (let self1 = publish (channel self ''task_queued'') tid self
           in case map_of (entries self1) (job_name jb) of
                None \<Rightarrow> (Inr (Some t), self1)
              | Some en \<Rightarrow>
                  (case entry_next en None of
                     Inl e \<Rightarrow> (Inl e, self1)
                   | Inr en' \<Rightarrow>
                       (Inr (Some t),
                        self1\<lparr>entries :=
                          map (\<lambda>(n, x). if n = job_name jb then (n, en') else (n, x))
                            (entries self1)\<rparr>))))"

text \<open>
  \<^verbatim>\<open>TaskBackend.queue_task\<close>; \<open>now\<close> is \<^verbatim>\<open>time.time()\<close>. The result is the task that was
  queued, or \<open>None\<close> when the lock was taken.
\<close>

definition queue_task ::
    "(status \<Rightarrow> int) \<Rightarrow> (string \<Rightarrow> string) \<Rightarrow> string \<Rightarrow> real \<Rightarrow>
     string \<Rightarrow> (string \<times> val) list \<Rightarrow> real option \<Rightarrow> kwargs \<Rightarrow> backend \<Rightarrow>
     (error + task option) \<times> backend" where
  "queue_task codes sha1 uid now jobname meta_params expiry kw self =
     (case registry self jobname of
        None \<Rightarrow> (Inl (TaskNotAvailable jobname), self)
      | Some jb \<Rightarrow>
          (case generate_task_ids sha1 uid self jb kw of
             (task_id, lock_id) \<Rightarrow>
               (case maybe_queue_task
                       (make_task codes task_id lock_id jb now (task_expiry expiry jb now) kw
                          meta_params) self of
                  (Inl e, self1) \<Rightarrow> (Inl e, self1)
                | (Inr None, self1) \<Rightarrow> (Inr None, self1)
                | (Inr (Some t), self1) \<Rightarrow> task_queued jb t self1)))"

section \<open>Polling and execution\<close>

text \<open>
  The outcome of one \<^verbatim>\<open>may_pool_task\<close>: the delay given to \<^verbatim>\<open>call_later\<close> (\<open>None\<close> when
  the loop is not rescheduled) and the task handed to \<^verbatim>\<open>thread_pool.apply\<close>, if any.
\<close>

record poll =
  call_later :: "real option"
  applied :: "task option"

text \<open>\<^verbatim>\<open>worker.stop()\<close>: the worker is no longer running.\<close>

definition stop :: "worker \<Rightarrow> worker" where
  "stop w = w\<lparr>running := False\<rparr>"

definition may_pool_task :: "worker \<Rightarrow> backend \<Rightarrow> (error + poll) \<times> worker \<times> backend" where
  "may_pool_task w self =
     (if running w then
        (if \<not> thread_pool w then (Inr \<lparr>call_later = Some 0, applied = None\<rparr>, w, self)
         else if num_concurrent_tasks self < backlog self then
           (if max_tasks self \<noteq> 0 \<and> max_tasks self \<le> processed self then
              (if num_concurrent_tasks self = 0 then
                 (Inr \<lparr>call_later = None, applied = None\<rparr>, stop w, self)
               else (Inr \<lparr>call_later = Some 0, applied = None\<rparr>, w, self))
            else
              (case get_task None self of
                 (None, self1) \<Rightarrow> (Inr \<lparr>call_later = Some 0, applied = None\<rparr>, w, self1)
               | (Some t, self1) \<Rightarrow>
                   (let self2 = self1\<lparr>processed := processed self1 + 1\<rparr>
                    in case getitem t ''id'' of
                         Inl e \<Rightarrow> (Inl e, w, self2)
                       | Inr task_id \<Rightarrow>
                           (Inr \<lparr>call_later = Some 0, applied = Some t\<rparr>, w,
                            self2\<lparr>concurrent_tasks := insert task_id (concurrent_tasks self2),
                                  trace := trace self2 @ [Applied task_id]\<rparr>))))
         else (Inr \<lparr>call_later = Some 1, applied = None\<rparr>, w, self))
      else (Inr \<lparr>call_later = Some 0, applied = None\<rparr>, w, self))"

text \<open>
  The end of \<^verbatim>\<open>_execute_task\<close>, after the \<^verbatim>\<open>try\<close> statement: the terminal status is
  saved, the id leaves the concurrency set and \<^verbatim>\<open>task_done\<close> is published.
\<close>

definition finish :: "real \<Rightarrow> val \<Rightarrow> int \<Rightarrow> val \<Rightarrow> backend \<Rightarrow> (error + val) \<times> backend" where
  "finish t_end task_id st result self =
     (let self1 = save_task task_id
                    [(''time_ended'', VFloat t_end), (''status'', VInt st), (''result'', result)] self;
          self2 = self1\<lparr>concurrent_tasks := concurrent_tasks self1 - {task_id}\<rparr>
      in (Inr task_id, publish (channel self2 ''task_done'') task_id self2))"

text \<open>
  The two handlers of the \<^verbatim>\<open>try\<close> statement. \<^verbatim>\<open>except TaskTimeout\<close> revokes the task;
  \<^verbatim>\<open>except Exception\<close> builds its log message with \<^verbatim>\<open>task.info()\<close> before it sets the
  result, so an exception of \<open>task_info\<close> leaves the handler. \<open>failure_str\<close> is
  \<^verbatim>\<open>str(Failure(sys.exc_info()))\<close>, a parameter.
\<close>

definition handle ::
    "(status \<Rightarrow> int) \<Rightarrow> (error \<Rightarrow> string) \<Rightarrow> real \<Rightarrow> task \<Rightarrow> val \<Rightarrow> error \<Rightarrow> backend \<Rightarrow>
     (error + val) \<times> backend" where
  "handle codes failure_str t_end t task_id e self =
     (if e = TaskTimeout then finish t_end task_id (codes REVOKED) VNone self
      else (case task_info t of
              Inl e' \<Rightarrow> (Inl e', self)
            | Inr msg \<Rightarrow> finish t_end task_id (codes FAILURE) (VStr (failure_str e)) self))"

text \<open>\<^verbatim>\<open>task['expiry'] and time_ended > task['expiry']\<close>.\<close>

definition expired :: "real \<Rightarrow> task \<Rightarrow> error + bool" where
  "expired time_ended t =
     (case getitem t ''expiry'' of
        Inl e \<Rightarrow> Inl e
      | Inr x \<Rightarrow> if truthy x then float_gt time_ended x else Inr False)"

text \<open>
  \<^verbatim>\<open>TaskBackend._execute_task\<close>. \<open>t_start\<close> is the \<^verbatim>\<open>time.time()\<close> read on entry and
  \<open>t_end\<close> the one read after the \<^verbatim>\<open>try\<close> statement. The message of the
  \<^verbatim>\<open>RuntimeError\<close> for an unregistered job formats \<^verbatim>\<open>task.lazy_info()\<close>, which calls
  \<open>task_info\<close>. \<^verbatim>\<open>coroutine_return\<close> in the branch of an invalid status ends the
  coroutine without entering a handler.
\<close>

definition execute_task ::
    "(status \<Rightarrow> int) \<Rightarrow> (error \<Rightarrow> string) \<Rightarrow> real \<Rightarrow> real \<Rightarrow> worker \<Rightarrow> task \<Rightarrow> backend \<Rightarrow>
     (error + val) \<times> backend" where
  "execute_task codes failure_str t_start t_end w t self =
     (case getitem t ''id'' of
        Inl e \<Rightarrow> (Inl e, self)
      | Inr task_id \<Rightarrow>
          (case (case get t ''name'' of VStr n \<Rightarrow> registry self n | _ \<Rightarrow> None) of
             None \<Rightarrow>
               handle codes failure_str t_end t task_id
                 (case task_info t of Inl e \<Rightarrow> e | Inr msg \<Rightarrow> RuntimeError) self
           | Some jb \<Rightarrow>
               (case getitem t ''status'' of
                  Inl e \<Rightarrow> handle codes failure_str t_end t task_id e self
                | Inr st \<Rightarrow>
                    (case gt_int st (codes STARTED) of
                       Inl e \<Rightarrow> handle codes failure_str t_end t task_id e self
                     | Inr False \<Rightarrow>
                         (Inr task_id,
                          self\<lparr>concurrent_tasks := concurrent_tasks self - {task_id}\<rparr>)
                     | Inr True \<Rightarrow>
                         (case expired t_start t of
                            Inl e \<Rightarrow> handle codes failure_str t_end t task_id e self
                          | Inr True \<Rightarrow> handle codes failure_str t_end t task_id TaskTimeout self
                          | Inr False \<Rightarrow>
                              (let self1 = save_task task_id
                                             [(''status'', VInt (codes STARTED)),
                                              (''time_started'', VFloat t_start),
                                              (''worker'', VStr (aid w))] self;
                                   self2 = publish (channel self1 ''task_started'') task_id self1
                               in case load_kwargs t of
                                    Inl e \<Rightarrow> handle codes failure_str t_end t task_id e self2
                                  | Inr kw \<Rightarrow>
                                      (let self3 = self2\<lparr>trace := trace self2 @
                                                      [Invoked (job_name jb) task_id kw]\<rparr>
                                       in case call jb task_id kw of
                                            Inl e \<Rightarrow>
                                              handle codes failure_str t_end t task_id e self3
                                          | Inr result \<Rightarrow>
                                              finish t_end task_id (codes SUCCESS) result
                                                self3)))))))"

section \<open>Waiters\<close>

datatype waited = Nothing | Resolved task | Suspended

text \<open>
  \<^verbatim>\<open>TaskBackend.wait_for_task\<close>. The class defines no \<^verbatim>\<open>pop_callback\<close>; the method is a
  parameter, which returns the handle it removed, if any.
\<close>

definition wait_for_task ::
    "val list option \<Rightarrow> (val \<Rightarrow> backend \<Rightarrow> (error + deferred option) \<times> backend) \<Rightarrow>
     val \<Rightarrow> backend \<Rightarrow> (error + waited) \<times> backend" where
  "wait_for_task ready_states pop_callback task_id self =
     (case get_task (Some task_id) self of
        (None, self1) \<Rightarrow> (Inr Nothing, self1)
      | (Some t, self1) \<Rightarrow>
          (case task_done ready_states t of
             Inl e \<Rightarrow> (Inl e, self1)
           | Inr True \<Rightarrow>
               (case pop_callback (get t ''id'') self1 of
                  (Inl e, self2) \<Rightarrow> (Inl e, self2)
                | (Inr None, self2) \<Rightarrow> (Inr (Resolved t), self2)
                | (Inr (Some when_done), self2) \<Rightarrow>
                    (Inr (Resolved t),
                     self2\<lparr>trace := trace self2 @ [Fired (get t ''id'') t]\<rparr>))
           | Inr False \<Rightarrow>
               (case callbacks self1 task_id of
                  Some when_done \<Rightarrow> (Inr Suspended, self1)
                | None \<Rightarrow>
                    (Inr Suspended,
                     self1\<lparr>callbacks := (callbacks self1)(task_id \<mapsto> Deferred)\<rparr>))))"

text \<open>\<^verbatim>\<open>TaskBackend.task_done_callback\<close>.\<close>

definition task_done_callback :: "val \<Rightarrow> backend \<Rightarrow> backend" where
  "task_done_callback task_id self =
     (case get_task (Some task_id) self of
        (None, self1) \<Rightarrow> self1
      | (Some t, self1) \<Rightarrow>
          (case callbacks self1 task_id of
             None \<Rightarrow> self1
           | Some when_done \<Rightarrow>
               self1\<lparr>callbacks := (callbacks self1)(task_id := None),
                     trace := trace self1 @ [Fired task_id t]\<rparr>))"

section \<open>The periodic tick\<close>

text \<open>
  The loop of \<^verbatim>\<open>tick\<close> over the entries, in the order of the dictionary. The class defines
  no \<^verbatim>\<open>run_job\<close>; the method is a parameter. The loop stops at the first exception, which
  is returned with the estimates collected so far and the names of the entries whose due
  check was called. An entry that \<open>run_job\<close> removed from the dictionary ends the iteration
  with Python's \<^verbatim>\<open>RuntimeError\<close> for a dictionary that changed size.
\<close>

fun tick_entries ::
    "(string \<Rightarrow> backend \<Rightarrow> (error + unit) \<times> backend) \<Rightarrow> datetime option \<Rightarrow> string list \<Rightarrow>
     real list \<Rightarrow> string list \<Rightarrow> backend \<Rightarrow> (error option \<times> real list \<times> string list) \<times> backend" where
  "tick_entries run_job now [] remaining_times seen self = ((None, remaining_times, seen), self)"
| "tick_entries run_job now (n # ns) remaining_times seen self =
     (case map_of (entries self) n of
        None \<Rightarrow> ((Some RuntimeError, remaining_times, seen), self)
      | Some en \<Rightarrow>
          (case entry_is_due en now of
             (r, en') \<Rightarrow>
               (let self1 = self\<lparr>entries := map (\<lambda>(m, x). if m = n then (m, en') else (m, x))
                                              (entries self)\<rparr>
                in case r of
                     Inl e \<Rightarrow> ((Some e, remaining_times, seen @ [n]), self1)
                   | Inr (due, next_time_to_run) \<Rightarrow>
                       (case (if due then run_job (entry_name en') self1 else (Inr (), self1)) of
                          (Inl e, self2) \<Rightarrow> ((Some e, remaining_times, seen @ [n]), self2)
                        | (Inr u, self2) \<Rightarrow>
                            tick_entries run_job now ns
                              (if next_time_to_run \<noteq> 0 then remaining_times @ [next_time_to_run]
                               else remaining_times)
                              (seen @ [n]) self2))))"

text \<open>\<^verbatim>\<open>timedelta(seconds=x)\<close>, rounded to microseconds.\<close>

definition timedelta_of_seconds :: "real \<Rightarrow> timedelta" where
  "timedelta_of_seconds x = round (x * 1000000)"

fun minimum :: "real list \<Rightarrow> real" where
  "minimum [] = 0"
| "minimum [x] = x"
| "minimum (x # y # zs) = min x (minimum (y # zs))"

text \<open>
  \<^verbatim>\<open>TaskBackend.tick\<close>. The result holds the names of the entries that were evaluated; the
  exception that ended the loop is logged.
\<close>

definition tick ::
    "(string \<Rightarrow> backend \<Rightarrow> (error + unit) \<times> backend) \<Rightarrow> datetime option \<Rightarrow> backend \<Rightarrow>
     (error + string list) \<times> backend" where
  "tick run_job now self =
     (if \<not> schedule_periodic self then (Inr [], self)
      else
        (case tick_entries run_job now (map fst (entries self)) [] [] self of
           ((err, remaining_times, seen), self1) \<Rightarrow>
             (let self2 = (case err of
                             None \<Rightarrow> self1
                           | Some e \<Rightarrow> self1\<lparr>trace := trace self1 @ [LoggedException e]\<rparr>)
              in case now of
                   None \<Rightarrow> (Inl (NameError ''datetime''), self2)
                 | Some n \<Rightarrow>
                     (Inr seen,
                      self2\<lparr>next_run :=
                        Datetime (if remaining_times \<noteq> []
                                  then n + timedelta_of_seconds (minimum remaining_times)
                                  else n)\<rparr>))))"

section \<open>Runs of the backend\<close>

text \<open>
  What happens to one backend and its worker over time: requests arrive, the poll loop
  iterates, dispatched tasks are executed by the pool, and \<^verbatim>\<open>task_done\<close> events come in.
  A run is any sequence of these.
\<close>

datatype action =
    Queue string real string "(string \<times> val) list" "real option" kwargs
  | Poll
  | Execute real real task
  | Done_event val

fun step ::
    "(status \<Rightarrow> int) \<Rightarrow> (string \<Rightarrow> string) \<Rightarrow> (error \<Rightarrow> string) \<Rightarrow> action \<Rightarrow>
     worker \<times> backend \<Rightarrow> worker \<times> backend" where
  "step codes sha1 failure_str (Queue uid now jobname meta_params expiry kw) (w, self) =
     (w, snd (queue_task codes sha1 uid now jobname meta_params expiry kw self))"
| "step codes sha1 failure_str Poll (w, self) = snd (may_pool_task w self)"
| "step codes sha1 failure_str (Execute t_start t_end t) (w, self) =
     (w, snd (execute_task codes failure_str t_start t_end w t self))"
| "step codes sha1 failure_str (Done_event task_id) (w, self) =
     (w, task_done_callback task_id self)"

fun run_actions ::
    "(status \<Rightarrow> int) \<Rightarrow> (string \<Rightarrow> string) \<Rightarrow> (error \<Rightarrow> string) \<Rightarrow> action list \<Rightarrow>
     worker \<times> backend \<Rightarrow> worker \<times> backend" where
  "run_actions codes sha1 failure_str [] s = s"
| "run_actions codes sha1 failure_str (a # as) s =
     run_actions codes sha1 failure_str as (step codes sha1 failure_str a s)"

text \<open>The configured limits and the counters the poll loop decides on.\<close>

definition limits :: "backend \<Rightarrow> int \<times> int \<times> real" where
  "limits self = (backlog self, max_tasks self, poll_timeout self)"

text \<open>The task ids handed to the pool, in order.\<close>

fun dispatched :: "event list \<Rightarrow> val list" where
  "dispatched [] = []"
| "dispatched (Applied i # es) = i # dispatched es"
| "dispatched (e # es) = dispatched es"

text \<open>The status values saved under a task id, in order.\<close>

fun persisted :: "val \<Rightarrow> event list \<Rightarrow> val list" where
  "persisted i [] = []"
| "persisted i (Saved k t # es) =
     (if k = i then (case t ''status'' of None \<Rightarrow> persisted i es | Some v \<Rightarrow> v # persisted i es)
      else persisted i es)"
| "persisted i (e # es) = persisted i es"

text \<open>The job bodies called, in order.\<close>

fun invoked :: "event list \<Rightarrow> val list" where
  "invoked [] = []"
| "invoked (Invoked n i kw # es) = i # invoked es"
| "invoked (e # es) = invoked es"

text \<open>What the poll loop decides on: the limits, the counter and the concurrency set.\<close>

definition control :: "backend \<Rightarrow> (int \<times> int \<times> real) \<times> int \<times> val set" where
  "control self = (limits self, processed self, concurrent_tasks self)"

text \<open>The ceiling: the concurrency set is finite and no larger than the backlog.\<close>

definition within_backlog :: "backend \<Rightarrow> bool" where
  "within_backlog self \<longleftrightarrow> finite (concurrent_tasks self) \<and> num_concurrent_tasks self \<le> backlog self"

text \<open>What a run cannot change once the lifetime count is reached.\<close>

definition drained :: "backend \<Rightarrow> int \<times> int \<times> val list" where
  "drained self = (max_tasks self, processed self, dispatched (trace self))"

section \<open>The due check\<close>

lemma total_seconds_zero_iff: "total_seconds d = 0 \<longleftrightarrow> d = 0"
  by (simp add: total_seconds_def)

lemma timedelta_seconds_nonneg: "0 \<le> d \<Longrightarrow> timedelta_seconds d = total_seconds d"
  by (simp add: timedelta_seconds_def total_seconds_def)

lemma total_seconds_seconds: "total_seconds (seconds n) = real_of_int n"
  by (simp add: total_seconds_def seconds_def)

text \<open>
  Claim C7. For every \<open>last_run_at\<close> and \<open>now\<close>, \<open>is_due\<close> computes
  \<open>remaining = run_every - (now - last_run_at)\<close> in seconds clamped below at zero, answers
  \<open>(True, run_every in seconds)\<close> when the remaining time is zero and \<open>(False, remaining)\<close>
  otherwise. The interval hint is \<open>timedelta_seconds run_every\<close>, which is \<open>run_every\<close> in
  seconds for every non-negative interval. With \<open>run_every = 60s\<close> and \<open>last_run_at = T\<close>
  the answer at \<open>T + 61s\<close> is \<open>(True, 60)\<close> and at \<open>T + 30s\<close> it is \<open>(False, 30)\<close>.
\<close>

theorem is_due_remaining:
  "is_due s last_run (Some now) =
     (let remaining = max (total_seconds (run_every s - (now - last_run))) 0
      in if remaining = 0 then Inr (True, timedelta_seconds (run_every s))
         else Inr (False, remaining))
   \<and> (0 \<le> run_every s \<longrightarrow> timedelta_seconds (run_every s) = total_seconds (run_every s))
   \<and> is_due \<lparr>run_every = seconds 60, anchor = a\<rparr> T (Some (T + seconds 61)) = Inr (True, 60)
   \<and> is_due \<lparr>run_every = seconds 60, anchor = a\<rparr> T (Some (T + seconds 30)) = Inr (False, 30)"
proof -
  have eq: "run_every s - (now - last_run) = last_run + run_every s - now"
    by simp
  have general: "is_due s last_run (Some now) =
     (let remaining = max (total_seconds (run_every s - (now - last_run))) 0
      in if remaining = 0 then Inr (True, timedelta_seconds (run_every s))
         else Inr (False, remaining))"
    by (simp only: eq) (simp add: is_due_def timedelta_seconds_def Let_def)
  have hint: "0 \<le> run_every s \<longrightarrow> timedelta_seconds (run_every s) = total_seconds (run_every s)"
    by (simp add: timedelta_seconds_nonneg)
  have late: "is_due \<lparr>run_every = seconds 60, anchor = a\<rparr> T (Some (T + seconds 61)) = Inr (True, 60)"
    by (simp add: is_due_def timedelta_seconds_def total_seconds_def seconds_def)
  have early: "is_due \<lparr>run_every = seconds 60, anchor = a\<rparr> T (Some (T + seconds 30)) = Inr (False, 30)"
    by (simp add: is_due_def timedelta_seconds_def total_seconds_def seconds_def)
  from general hint late early show ?thesis by blast
qed

theorem is_due_remaining_witness:
  "(0::int) \<le> run_every \<lparr>run_every = seconds 60, anchor = None\<rparr>
   \<and> timedelta_seconds (seconds 60) = 60
   \<and> is_due \<lparr>run_every = seconds 60, anchor = None\<rparr> 0 (Some (seconds 61)) = Inr (True, 60)"
  using is_due_remaining [of "\<lparr>run_every = seconds 60, anchor = None\<rparr>" 0 "seconds 61" None 0]
  by (simp add: seconds_def total_seconds_def)

section \<open>What each operation leaves unchanged\<close>


lemma control_publish: "control (publish ch m b) = control b"
  by (simp add: control_def limits_def publish_def)

lemma control_save_task: "control (save_task i p b) = control b"
  by (simp add: control_def limits_def save_task_def)

lemma control_get_task: "control (snd (get_task i b)) = control b"
  by (simp add: control_def limits_def get_task_def Let_def split: prod.splits option.splits)

lemma control_maybe_queue_task: "control (snd (maybe_queue_task t b)) = control b"
  by (simp add: control_def limits_def maybe_queue_task_def split: sum.splits prod.splits)

lemma control_task_queued: "control (snd (task_queued jb t b)) = control b"
  by (simp add: task_queued_def Let_def control_publish split: sum.splits option.splits)
    (simp add: control_def limits_def publish_def)

lemma control_queue_task: "control (snd (queue_task c h u n j m x k b)) = control b"
proof (cases "registry b j")
  case None
  then show ?thesis by (simp add: queue_task_def)
next
  case (Some jb)
  obtain tid lid where g: "generate_task_ids h u b jb k = (tid, lid)"
    by (cases "generate_task_ids h u b jb k")
  obtain r b1 where q: "maybe_queue_task (make_task c tid lid jb n (task_expiry x jb n) k m) b = (r, b1)"
    by (cases "maybe_queue_task (make_task c tid lid jb n (task_expiry x jb n) k m) b")
  from control_maybe_queue_task [of "make_task c tid lid jb n (task_expiry x jb n) k m" b] q
  have b1: "control b1 = control b" by simp
  show ?thesis
  proof (cases r)
    case (Inl e)
    then show ?thesis by (simp add: queue_task_def Some g q b1)
  next
    case (Inr o1)
    then show ?thesis
      by (cases o1) (simp_all add: queue_task_def Some g q b1 control_task_queued)
  qed
qed

lemma control_task_done_callback: "control (task_done_callback i b) = control b"
proof -
  obtain r b1 where g: "get_task (Some i) b = (r, b1)" by (cases "get_task (Some i) b")
  from control_get_task [of "Some i" b] g have b1: "control b1 = control b" by simp
  show ?thesis
    by (cases r; cases "callbacks b1 i")
      (use b1 in \<open>simp_all add: task_done_callback_def g control_def limits_def\<close>)
qed


lemma finish_keeps:
  "limits (snd (finish te i st r b)) = limits b"
  "processed (snd (finish te i st r b)) = processed b"
  "concurrent_tasks (snd (finish te i st r b)) = concurrent_tasks b - {i}"
  by (simp_all add: finish_def Let_def limits_def publish_def save_task_def)

lemma handle_keeps:
  "limits (snd (handle c fs te t i e b)) = limits b"
  "processed (snd (handle c fs te t i e b)) = processed b"
  "concurrent_tasks (snd (handle c fs te t i e b)) \<subseteq> concurrent_tasks b"
  by (auto simp add: handle_def finish_keeps split: sum.splits)

lemma started_keeps:
  "limits (publish ch i (save_task i p b)\<lparr>trace := tr\<rparr>) = limits b"
  "processed (publish ch i (save_task i p b)\<lparr>trace := tr\<rparr>) = processed b"
  "concurrent_tasks (publish ch i (save_task i p b)\<lparr>trace := tr\<rparr>) = concurrent_tasks b"
  "limits (publish ch i (save_task i p b)) = limits b"
  "processed (publish ch i (save_task i p b)) = processed b"
  "concurrent_tasks (publish ch i (save_task i p b)) = concurrent_tasks b"
  by (simp_all add: limits_def publish_def save_task_def)

lemma execute_task_keeps:
  "limits (snd (execute_task c fs ts te w t b)) = limits b"
  "processed (snd (execute_task c fs ts te w t b)) = processed b"
  "concurrent_tasks (snd (execute_task c fs ts te w t b)) \<subseteq> concurrent_tasks b"
proof -
  show "limits (snd (execute_task c fs ts te w t b)) = limits b"
    by (simp add: execute_task_def Let_def handle_keeps finish_keeps started_keeps
        split: sum.splits option.splits bool.splits) (simp add: limits_def)
  show "processed (snd (execute_task c fs ts te w t b)) = processed b"
    by (simp add: execute_task_def Let_def handle_keeps finish_keeps started_keeps
        split: sum.splits option.splits bool.splits)
  have h: "\<And>e b'. concurrent_tasks b' = concurrent_tasks b \<Longrightarrow>
      concurrent_tasks (snd (handle c fs te t (get t ''id'') e b')) \<subseteq> concurrent_tasks b"
    using handle_keeps(3) by metis
  show "concurrent_tasks (snd (execute_task c fs ts te w t b)) \<subseteq> concurrent_tasks b"
    by (auto simp add: execute_task_def Let_def finish_keeps started_keeps
        split: sum.splits option.splits bool.splits
        dest!: subsetD [OF handle_keeps(3)] simp: started_keeps)
qed


lemma get_task_keeps:
  assumes "get_task i b = (r, b1)"
  shows "limits b1 = limits b" "processed b1 = processed b"
    "concurrent_tasks b1 = concurrent_tasks b"
  using control_get_task [of i b] assms by (simp_all add: control_def)

lemma limits_may_pool_task: "limits (snd (snd (may_pool_task w b))) = limits b"
proof -
  obtain r b1 where g: "get_task None b = (r, b1)" by (cases "get_task None b")
  from get_task_keeps(1) [OF g] have l: "limits b1 = limits b" .
  show ?thesis
    by (cases r) (use l in \<open>auto simp add: may_pool_task_def Let_def g limits_def split: sum.splits\<close>)
qed

lemma card_insert_le_Suc: "card (insert x A) \<le> Suc (card A)"
  by (cases "finite A") (simp_all add: card_insert_if)

lemma may_pool_task_adds:
  "concurrent_tasks (snd (snd (may_pool_task w b))) = concurrent_tasks b
   \<or> (\<exists>task_id. concurrent_tasks (snd (snd (may_pool_task w b))) = insert task_id (concurrent_tasks b)
         \<and> num_concurrent_tasks b < backlog b)"
proof -
  obtain r b1 where g: "get_task None b = (r, b1)" by (cases "get_task None b")
  from get_task_keeps(3) [OF g] have c: "concurrent_tasks b1 = concurrent_tasks b" .
  show ?thesis
    by (cases r) (auto simp add: may_pool_task_def Let_def g c split: sum.splits)
qed

lemma within_backlog_may_pool_task:
  assumes "within_backlog b"
  shows "within_backlog (snd (snd (may_pool_task w b)))"
proof -
  have bl: "backlog (snd (snd (may_pool_task w b))) = backlog b"
    using limits_may_pool_task [of w b] by (simp add: limits_def)
  from may_pool_task_adds [of w b] show ?thesis
  proof
    assume "concurrent_tasks (snd (snd (may_pool_task w b))) = concurrent_tasks b"
    with assms bl show ?thesis by (simp add: within_backlog_def num_concurrent_tasks_def)
  next
    assume "\<exists>task_id. concurrent_tasks (snd (snd (may_pool_task w b))) = insert task_id (concurrent_tasks b)
         \<and> num_concurrent_tasks b < backlog b"
    then obtain task_id where
      eq: "concurrent_tasks (snd (snd (may_pool_task w b))) = insert task_id (concurrent_tasks b)"
      and lt: "num_concurrent_tasks b < backlog b" by blast
    have "card (insert task_id (concurrent_tasks b)) \<le> Suc (card (concurrent_tasks b))"
      by (rule card_insert_le_Suc)
    with lt assms bl show ?thesis
      by (simp add: within_backlog_def num_concurrent_tasks_def eq)
  qed
qed

lemma within_backlog_subset:
  assumes "within_backlog b" "concurrent_tasks b' \<subseteq> concurrent_tasks b" "limits b' = limits b"
  shows "within_backlog b'"
proof -
  from assms have fin: "finite (concurrent_tasks b)" by (simp add: within_backlog_def)
  with assms(2) have "finite (concurrent_tasks b')" by (rule finite_subset)
  moreover from assms(2) fin have "card (concurrent_tasks b') \<le> card (concurrent_tasks b)"
    by (simp add: card_mono)
  ultimately show ?thesis
    using assms(1,3) by (simp add: within_backlog_def num_concurrent_tasks_def limits_def)
qed

lemma queue_task_keeps:
  "limits (snd (queue_task c h u n j m x k b)) = limits b"
  "processed (snd (queue_task c h u n j m x k b)) = processed b"
  "concurrent_tasks (snd (queue_task c h u n j m x k b)) = concurrent_tasks b"
  using control_queue_task [of c h u n j m x k b] by (simp_all add: control_def)

lemma task_done_callback_keeps:
  "limits (task_done_callback i b) = limits b"
  "processed (task_done_callback i b) = processed b"
  "concurrent_tasks (task_done_callback i b) = concurrent_tasks b"
  using control_task_done_callback [of i b] by (simp_all add: control_def)

lemma limits_step_pair: "limits (snd (step c h fs a (w, b))) = limits b"
  by (cases a)
    (simp_all add: queue_task_keeps(1) task_done_callback_keeps(1) execute_task_keeps(1)
      limits_may_pool_task)

lemma limits_step: "limits (snd (step c h fs a s)) = limits (snd s)"
  by (cases s) (simp only: limits_step_pair snd_conv)

lemma within_backlog_step_pair:
  assumes "within_backlog b"
  shows "within_backlog (snd (step c h fs a (w, b)))"
proof (cases a)
  case (Queue u n j m x k)
  have "within_backlog (snd (queue_task c h u n j m x k b))"
    by (rule within_backlog_subset [OF assms]) (simp_all only: queue_task_keeps subset_refl)
  then show ?thesis by (simp only: Queue step.simps snd_conv)
next
  case Poll
  have "within_backlog (snd (snd (may_pool_task w b)))"
    by (rule within_backlog_may_pool_task [OF assms])
  then show ?thesis by (simp only: Poll step.simps)
next
  case (Execute ts te t)
  have "within_backlog (snd (execute_task c fs ts te w t b))"
    by (rule within_backlog_subset [OF assms]) (rule execute_task_keeps)+
  then show ?thesis by (simp only: Execute step.simps snd_conv)
next
  case (Done_event i)
  have "within_backlog (task_done_callback i b)"
    by (rule within_backlog_subset [OF assms]) (simp_all only: task_done_callback_keeps subset_refl)
  then show ?thesis by (simp only: Done_event step.simps snd_conv)
qed

lemma within_backlog_step:
  "within_backlog (snd s) \<Longrightarrow> within_backlog (snd (step c h fs a s))"
  by (cases s) (simp only: within_backlog_step_pair snd_conv)

lemma limits_run_actions: "limits (snd (run_actions c h fs as s)) = limits (snd s)"
  by (induction as arbitrary: s) (simp_all add: limits_step)

lemma within_backlog_run_actions:
  "within_backlog (snd s) \<Longrightarrow> within_backlog (snd (run_actions c h fs as s))"
  by (induction as arbitrary: s) (simp_all add: within_backlog_step)

lemma may_pool_task_full:
  "running w \<Longrightarrow> thread_pool w \<Longrightarrow> backlog b \<le> num_concurrent_tasks b \<Longrightarrow>
   may_pool_task w b = (Inr \<lparr>call_later = Some 1, applied = None\<rparr>, w, b)"
  by (simp add: may_pool_task_def)

lemma within_backlog_init:
  "0 \<le> N \<Longrightarrow> within_backlog (init st reg es now sp N mt nm pt)"
  by (simp add: within_backlog_def init_def num_concurrent_tasks_def)


section \<open>The backlog ceiling\<close>

text \<open>
  Claim C1. For every configured backlog \<open>N\<close> the concurrency set never exceeds size \<open>N\<close>,
  whatever the sequence of requests, poll iterations, executions and events: it holds from
  the initial backend, and from any backend within its backlog. One \<open>may_pool_task\<close> adds
  at most one task id, and only when the set is strictly smaller than the backlog. When the
  set has reached the backlog, the iteration of a running worker with a thread pool
  reschedules itself with delay 1 and leaves the backend, store and trace as they were, so
  nothing was polled.
\<close>

theorem backlog_ceiling:
  "(0 \<le> N \<longrightarrow>
      num_concurrent_tasks
        (snd (run_actions codes sha1 failure_str acts
               (w0, init st reg es now sp N mt nm pt))) \<le> N)
   \<and> (within_backlog b \<longrightarrow>
        within_backlog (snd (run_actions codes sha1 failure_str acts (w, b))))
   \<and> (concurrent_tasks (snd (snd (may_pool_task w b))) = concurrent_tasks b
        \<or> (\<exists>task_id.
              concurrent_tasks (snd (snd (may_pool_task w b))) = insert task_id (concurrent_tasks b)
              \<and> num_concurrent_tasks b < backlog b))
   \<and> (running w \<and> thread_pool w \<and> backlog b \<le> num_concurrent_tasks b \<longrightarrow>
        may_pool_task w b = (Inr \<lparr>call_later = Some 1, applied = None\<rparr>, w, b))"
proof -
  let ?b0 = "init st reg es now sp N mt nm pt"
  let ?end = "snd (run_actions codes sha1 failure_str acts (w0, ?b0))"
  have first: "0 \<le> N \<longrightarrow> num_concurrent_tasks ?end \<le> N"
  proof
    assume "0 \<le> N"
    then have "within_backlog (snd (w0, ?b0))"
      by (simp add: within_backlog_init)
    then have "within_backlog ?end" by (rule within_backlog_run_actions)
    moreover have "limits ?end = limits (snd (w0, ?b0))" by (rule limits_run_actions)
    then have "backlog ?end = N" by (simp add: limits_def init_def)
    ultimately show "num_concurrent_tasks ?end \<le> N" by (simp add: within_backlog_def)
  qed
  have second: "within_backlog b \<longrightarrow>
      within_backlog (snd (run_actions codes sha1 failure_str acts (w, b)))"
    using within_backlog_run_actions [of "(w, b)" codes sha1 failure_str acts] by simp
  have fourth: "running w \<and> thread_pool w \<and> backlog b \<le> num_concurrent_tasks b \<longrightarrow>
        may_pool_task w b = (Inr \<lparr>call_later = Some 1, applied = None\<rparr>, w, b)"
    by (simp add: may_pool_task_full)
  from first second may_pool_task_adds [of w b] fourth show ?thesis by blast
qed

theorem backlog_ceiling_witness:
  "(0::int) \<le> 1
   \<and> within_backlog
        ((init empty_store Map.empty [] 0 False 1 0 ''mail'' None)\<lparr>concurrent_tasks := {VStr ''a''}\<rparr>)
   \<and> running \<lparr>running = True, thread_pool = True, aid = ''w''\<rparr>
   \<and> thread_pool \<lparr>running = True, thread_pool = True, aid = ''w''\<rparr>
   \<and> may_pool_task \<lparr>running = True, thread_pool = True, aid = ''w''\<rparr>
        ((init empty_store Map.empty [] 0 False 1 0 ''mail'' None)\<lparr>concurrent_tasks := {VStr ''a''}\<rparr>)
       = (Inr \<lparr>call_later = Some 1, applied = None\<rparr>,
          \<lparr>running = True, thread_pool = True, aid = ''w''\<rparr>,
          (init empty_store Map.empty [] 0 False 1 0 ''mail'' None)\<lparr>concurrent_tasks := {VStr ''a''}\<rparr>)
   \<and> num_concurrent_tasks
        (snd (run_actions (\<lambda>s. 0) id (\<lambda>e. []) [Poll, Poll]
               (\<lparr>running = True, thread_pool = True, aid = ''w''\<rparr>,
                init empty_store Map.empty [] 0 False 1 0 ''mail'' None))) \<le> 1"
  using backlog_ceiling [of 1 "\<lambda>s. 0" id "\<lambda>e. []" "[Poll, Poll]"
      "\<lparr>running = True, thread_pool = True, aid = ''w''\<rparr>"
      empty_store Map.empty "[]" 0 False 0 "''mail''" None
      "(init empty_store Map.empty [] 0 False 1 0 ''mail'' None)\<lparr>concurrent_tasks := {VStr ''a''}\<rparr>"
      "\<lparr>running = True, thread_pool = True, aid = ''w''\<rparr>"]
  by (simp add: within_backlog_def num_concurrent_tasks_def init_def)

section \<open>Draining at the lifetime count\<close>

lemma dispatched_append: "dispatched (xs @ ys) = dispatched xs @ dispatched ys"
  by (induction xs rule: dispatched.induct) simp_all

lemma dispatched_get_task: "dispatched (trace (snd (get_task i b))) = dispatched (trace b)"
  by (simp add: get_task_def Let_def dispatched_append split: prod.splits option.splits)

lemma dispatched_maybe_queue_task:
  "dispatched (trace (snd (maybe_queue_task t b))) = dispatched (trace b)"
  by (simp add: maybe_queue_task_def dispatched_append split: sum.splits prod.splits)

lemma dispatched_task_queued:
  "dispatched (trace (snd (task_queued jb t b))) = dispatched (trace b)"
  by (simp add: task_queued_def Let_def publish_def dispatched_append
      split: sum.splits option.splits)

lemma dispatched_queue_task:
  "dispatched (trace (snd (queue_task c h u n j m x k b))) = dispatched (trace b)"
proof (cases "registry b j")
  case None
  then show ?thesis by (simp add: queue_task_def)
next
  case (Some jb)
  obtain tid lid where g: "generate_task_ids h u b jb k = (tid, lid)"
    by (cases "generate_task_ids h u b jb k")
  obtain r b1 where q: "maybe_queue_task (make_task c tid lid jb n (task_expiry x jb n) k m) b = (r, b1)"
    by (cases "maybe_queue_task (make_task c tid lid jb n (task_expiry x jb n) k m) b")
  from dispatched_maybe_queue_task [of "make_task c tid lid jb n (task_expiry x jb n) k m" b] q
  have b1: "dispatched (trace b1) = dispatched (trace b)" by simp
  show ?thesis
  proof (cases r)
    case (Inl e)
    then show ?thesis by (simp add: queue_task_def Some g q b1)
  next
    case (Inr o1)
    then show ?thesis
      by (cases o1) (simp_all add: queue_task_def Some g q b1 dispatched_task_queued)
  qed
qed

lemma dispatched_task_done_callback:
  "dispatched (trace (task_done_callback i b)) = dispatched (trace b)"
proof -
  obtain r b1 where g: "get_task (Some i) b = (r, b1)" by (cases "get_task (Some i) b")
  from dispatched_get_task [of "Some i" b] g
  have b1: "dispatched (trace b1) = dispatched (trace b)" by simp
  show ?thesis
    by (cases r; cases "callbacks b1 i")
      (simp_all add: task_done_callback_def g b1 dispatched_append)
qed

lemma dispatched_finish:
  "dispatched (trace (snd (finish te i st r b))) = dispatched (trace b)"
  by (simp add: finish_def Let_def publish_def save_task_def dispatched_append)

lemma dispatched_handle:
  "dispatched (trace (snd (handle c fs te t i e b))) = dispatched (trace b)"
  by (simp add: handle_def dispatched_finish split: sum.splits)

lemma dispatched_execute_task:
  "dispatched (trace (snd (execute_task c fs ts te w t b))) = dispatched (trace b)"
  by (simp add: execute_task_def Let_def dispatched_handle dispatched_finish
      split: sum.splits option.splits bool.splits)
    (simp add: publish_def save_task_def dispatched_append)

lemma may_pool_task_drained:
  "max_tasks b \<noteq> 0 \<Longrightarrow> max_tasks b \<le> processed b \<Longrightarrow> snd (snd (may_pool_task w b)) = b"
  by (simp add: may_pool_task_def)

lemma drained_step_pair:
  assumes "max_tasks b \<noteq> 0" "max_tasks b \<le> processed b"
  shows "drained (snd (step c h fs a (w, b))) = drained b"
proof (cases a)
  case (Queue u n j m x k)
  have "limits (snd (queue_task c h u n j m x k b)) = limits b" by (rule queue_task_keeps)
  then show ?thesis
    by (simp add: Queue drained_def limits_def queue_task_keeps(2) dispatched_queue_task)
next
  case Poll
  then show ?thesis by (simp add: may_pool_task_drained [OF assms])
next
  case (Execute ts te t)
  have "limits (snd (execute_task c fs ts te w t b)) = limits b" by (rule execute_task_keeps)
  then show ?thesis
    by (simp add: Execute drained_def limits_def execute_task_keeps(2) dispatched_execute_task)
next
  case (Done_event i)
  have "limits (task_done_callback i b) = limits b" by (rule task_done_callback_keeps)
  then show ?thesis
    by (simp add: Done_event drained_def limits_def task_done_callback_keeps(2)
        dispatched_task_done_callback)
qed

lemma drained_run_actions:
  "max_tasks (snd s) \<noteq> 0 \<Longrightarrow> max_tasks (snd s) \<le> processed (snd s) \<Longrightarrow>
   drained (snd (run_actions c h fs as s)) = drained (snd s)"
proof (induction as arbitrary: s)
  case Nil
  then show ?case by simp
next
  case (Cons a as)
  obtain w b where s: "s = (w, b)" by (cases s)
  from Cons.prems have m: "max_tasks b \<noteq> 0" "max_tasks b \<le> processed b"
    by (simp_all add: s)
  have d: "drained (snd (step c h fs a (w, b))) = drained b"
    by (rule drained_step_pair [OF m])
  with m have
    "max_tasks (snd (step c h fs a (w, b))) \<noteq> 0"
    "max_tasks (snd (step c h fs a (w, b))) \<le> processed (snd (step c h fs a (w, b)))"
    by (simp_all add: drained_def)
  then have "drained (snd (run_actions c h fs as (step c h fs a (w, b))))
      = drained (snd (step c h fs a (w, b)))"
    by (rule Cons.IH)
  with d show ?case by (simp add: s)
qed

text \<open>
  Claim C9. With \<open>max_tasks\<close> configured (non-zero), the poll iteration of a running worker
  with a thread pool that finds \<open>processed \<ge> max_tasks\<close> and an empty concurrency set (below a
  positive backlog) stops the worker and is not rescheduled. From the moment
  \<open>processed \<ge> max_tasks\<close> holds, no sequence of later operations, with the worker in any
  state, hands another task to the pool or counts another task as processed.
\<close>

theorem drain_on_max_tasks:
  "(max_tasks b \<noteq> 0 \<and> max_tasks b \<le> processed b \<and> concurrent_tasks b = {}
      \<and> running w \<and> thread_pool w \<and> 0 < backlog b \<longrightarrow>
      may_pool_task w b = (Inr \<lparr>call_later = None, applied = None\<rparr>, stop w, b)
      \<and> \<not> running (stop w))
   \<and> (max_tasks b \<noteq> 0 \<and> max_tasks b \<le> processed b \<longrightarrow>
        dispatched (trace (snd (run_actions codes sha1 failure_str acts (w', b))))
          = dispatched (trace b)
        \<and> processed (snd (run_actions codes sha1 failure_str acts (w', b))) = processed b)"
proof -
  have stop: "max_tasks b \<noteq> 0 \<and> max_tasks b \<le> processed b \<and> concurrent_tasks b = {}
      \<and> running w \<and> thread_pool w \<and> 0 < backlog b \<longrightarrow>
      may_pool_task w b = (Inr \<lparr>call_later = None, applied = None\<rparr>, stop w, b)
      \<and> \<not> running (stop w)"
    by (simp add: may_pool_task_def num_concurrent_tasks_def stop_def)
  have after: "max_tasks b \<noteq> 0 \<and> max_tasks b \<le> processed b \<longrightarrow>
        dispatched (trace (snd (run_actions codes sha1 failure_str acts (w', b))))
          = dispatched (trace b)
        \<and> processed (snd (run_actions codes sha1 failure_str acts (w', b))) = processed b"
  proof
    assume a: "max_tasks b \<noteq> 0 \<and> max_tasks b \<le> processed b"
    then have "drained (snd (run_actions codes sha1 failure_str acts (w', b))) = drained (snd (w', b))"
      by (intro drained_run_actions) simp_all
    then show "dispatched (trace (snd (run_actions codes sha1 failure_str acts (w', b))))
          = dispatched (trace b)
        \<and> processed (snd (run_actions codes sha1 failure_str acts (w', b))) = processed b"
      by (simp add: drained_def)
  qed
  from stop after show ?thesis by blast
qed

theorem drain_on_max_tasks_witness:
  "max_tasks ((init empty_store Map.empty [] 0 False 1 2 ''mail'' None)\<lparr>processed := 2\<rparr>) \<noteq> 0
   \<and> may_pool_task \<lparr>running = True, thread_pool = True, aid = ''w''\<rparr>
        ((init empty_store Map.empty [] 0 False 1 2 ''mail'' None)\<lparr>processed := 2\<rparr>)
       = (Inr \<lparr>call_later = None, applied = None\<rparr>,
          \<lparr>running = False, thread_pool = True, aid = ''w''\<rparr>,
          (init empty_store Map.empty [] 0 False 1 2 ''mail'' None)\<lparr>processed := 2\<rparr>)
   \<and> dispatched (trace (snd (run_actions (\<lambda>s. 0) id (\<lambda>e. []) [Poll, Poll]
         (\<lparr>running = False, thread_pool = True, aid = ''w''\<rparr>,
          (init empty_store Map.empty [] 0 False 1 2 ''mail'' None)\<lparr>processed := 2\<rparr>)))) = []"
  using drain_on_max_tasks [of
      "(init empty_store Map.empty [] 0 False 1 2 ''mail'' None)\<lparr>processed := 2\<rparr>"
      "\<lparr>running = True, thread_pool = True, aid = ''w''\<rparr>"
      "\<lambda>s. 0" id "\<lambda>e. []" "[Poll, Poll]"
      "\<lparr>running = False, thread_pool = True, aid = ''w''\<rparr>"]
  by (simp add: init_def stop_def)

section \<open>The poll timeout\<close>

lemma poll_timeout_limits: "limits b' = limits b \<Longrightarrow> poll_timeout b' = poll_timeout b"
  by (simp add: limits_def)

lemma poll_timeout_wait_for_task:
  assumes "\<And>i s. poll_timeout (snd (pop_callback i s)) = poll_timeout s"
  shows "poll_timeout (snd (wait_for_task rs pop_callback i b)) = poll_timeout b"
proof -
  obtain r b1 where g: "get_task (Some i) b = (r, b1)" by (cases "get_task (Some i) b")
  from get_task_keeps(1) [OF g] have b1: "poll_timeout b1 = poll_timeout b"
    by (rule poll_timeout_limits)
  show ?thesis
  proof (cases r)
    case None
    then show ?thesis by (simp add: wait_for_task_def g b1)
  next
    case (Some t)
    obtain r2 b2 where p: "pop_callback (get t ''id'') b1 = (r2, b2)"
      by (cases "pop_callback (get t ''id'') b1")
    from assms [of "get t ''id''" b1] p b1 have b2: "poll_timeout b2 = poll_timeout b" by simp
    show ?thesis
      by (simp add: wait_for_task_def g Some p b1 b2
          split: sum.splits option.splits bool.splits)
  qed
qed

lemma poll_timeout_tick_entries:
  assumes "\<And>n s. poll_timeout (snd (run_job n s)) = poll_timeout s"
  shows "poll_timeout (snd (tick_entries run_job now ns rts seen b)) = poll_timeout b"
proof (induction ns arbitrary: rts seen b)
  case Nil
  then show ?case by simp
next
  case (Cons n ns)
  show ?case
  proof (cases "map_of (entries b) n")
    case None
    then show ?thesis by simp
  next
    case (Some en)
    obtain r en' where d: "entry_is_due en now = (r, en')" by (cases "entry_is_due en now")
    let ?b1 = "b\<lparr>entries := map (\<lambda>(m, x). if m = n then (m, en') else (m, x)) (entries b)\<rparr>"
    show ?thesis
    proof (cases r)
      case (Inl e)
      then show ?thesis by (simp add: Some d)
    next
      case (Inr p)
      obtain due nt where p: "p = (due, nt)" by (cases p)
      show ?thesis
      proof (cases due)
        case False
        then show ?thesis by (simp add: Some d Inr p Cons.IH)
      next
        case True
        obtain r2 b2 where j: "run_job (entry_name en') ?b1 = (r2, b2)"
          by (cases "run_job (entry_name en') ?b1")
        from assms [of "entry_name en'" ?b1] j have b2: "poll_timeout b2 = poll_timeout b" by simp
        show ?thesis
          by (cases r2) (simp_all add: Some d Inr p True j b2 Cons.IH)
      qed
    qed
  qed
qed

lemma poll_timeout_tick:
  assumes "\<And>n s. poll_timeout (snd (run_job n s)) = poll_timeout s"
  shows "poll_timeout (snd (tick run_job now b)) = poll_timeout b"
proof -
  obtain err rts seen b1 where
    t: "tick_entries run_job now (map fst (entries b)) [] [] b = ((err, rts, seen), b1)"
    by (cases "tick_entries run_job now (map fst (entries b)) [] [] b") auto
  from poll_timeout_tick_entries [of run_job now "map fst (entries b)" "[]" "[]" b, OF assms] t
  have "poll_timeout b1 = poll_timeout b" by simp
  then show ?thesis
    by (simp add: tick_def t Let_def split: option.splits)
qed

text \<open>
  Claim C10. For every constructor argument, \<open>None\<close>, zero, negative or below 2 included,
  \<open>init\<close> sets \<open>poll_timeout\<close> to \<open>max (poll_timeout or 0) 2\<close>: the attribute is at least 2,
  and it is 2 whenever the argument is missing or smaller than 2. No operation changes it
  afterwards: not a run of requests, poll iterations, executions and events, and not
  \<open>wait_for_task\<close> or \<open>tick\<close>, for any \<open>pop_callback\<close> and \<open>run_job\<close> that leave it alone.
\<close>

theorem poll_timeout_floor:
  "poll_timeout (init st reg es now sp N mt nm pt)
     = max (case pt of None \<Rightarrow> 0 | Some p \<Rightarrow> p) 2
   \<and> 2 \<le> poll_timeout (init st reg es now sp N mt nm pt)
   \<and> (pt = None \<or> (\<exists>p. pt = Some p \<and> p < 2) \<longrightarrow>
        poll_timeout (init st reg es now sp N mt nm pt) = 2)
   \<and> poll_timeout (snd (run_actions codes sha1 failure_str acts (w, b))) = poll_timeout b
   \<and> ((\<forall>i s. poll_timeout (snd (pop_callback i s)) = poll_timeout s) \<longrightarrow>
        poll_timeout (snd (wait_for_task rs pop_callback task_id b)) = poll_timeout b)
   \<and> ((\<forall>n s. poll_timeout (snd (run_job n s)) = poll_timeout s) \<longrightarrow>
        poll_timeout (snd (tick run_job tnow b)) = poll_timeout b)"
proof -
  have a: "poll_timeout (init st reg es now sp N mt nm pt)
     = max (case pt of None \<Rightarrow> 0 | Some p \<Rightarrow> p) 2"
    by (simp add: init_def split: option.splits)
  have b: "2 \<le> poll_timeout (init st reg es now sp N mt nm pt)"
    by (simp add: a)
  have c: "pt = None \<or> (\<exists>p. pt = Some p \<and> p < 2) \<longrightarrow>
        poll_timeout (init st reg es now sp N mt nm pt) = 2"
    by (auto simp add: a)
  have "limits (snd (run_actions codes sha1 failure_str acts (w, b))) = limits (snd (w, b))"
    by (rule limits_run_actions)
  then have d: "poll_timeout (snd (run_actions codes sha1 failure_str acts (w, b))) = poll_timeout b"
    by (simp add: limits_def)
  have e: "(\<forall>i s. poll_timeout (snd (pop_callback i s)) = poll_timeout s) \<longrightarrow>
        poll_timeout (snd (wait_for_task rs pop_callback task_id b)) = poll_timeout b"
    by (simp add: poll_timeout_wait_for_task)
  have f: "(\<forall>n s. poll_timeout (snd (run_job n s)) = poll_timeout s) \<longrightarrow>
        poll_timeout (snd (tick run_job tnow b)) = poll_timeout b"
    by (simp add: poll_timeout_tick)
  from a b c d e f show ?thesis by blast
qed

theorem poll_timeout_floor_witness:
  "poll_timeout (init empty_store Map.empty [] 0 False 1 0 ''mail'' (Some (-3))) = 2
   \<and> poll_timeout (init empty_store Map.empty [] 0 False 1 0 ''mail'' (Some 0)) = 2
   \<and> poll_timeout (init empty_store Map.empty [] 0 False 1 0 ''mail'' None) = 2
   \<and> poll_timeout (init empty_store Map.empty [] 0 False 1 0 ''mail'' (Some 5)) = 5
   \<and> (\<forall>i s. poll_timeout (snd ((\<lambda>i s. (Inr None, s)) i s)) = poll_timeout s)
   \<and> poll_timeout (snd (wait_for_task None (\<lambda>i s. (Inr None, s)) (VStr ''a'')
        (init empty_store Map.empty [] 0 False 1 0 ''mail'' (Some 1)))) = 2
   \<and> poll_timeout (snd (tick (\<lambda>n s. (Inr (), s)) (Some 0)
        (init empty_store Map.empty [] 0 True 1 0 ''mail'' (Some 1)))) = 2"
proof -
  note t = poll_timeout_floor [where b = "init empty_store Map.empty [] 0 False 1 0 ''mail'' (Some 1)"
      and pop_callback = "\<lambda>i s. (Inr None, s)" and rs = None and task_id = "VStr ''a''"]
  have w: "poll_timeout (snd (wait_for_task None (\<lambda>i s. (Inr None, s)) (VStr ''a'')
        (init empty_store Map.empty [] 0 False 1 0 ''mail'' (Some 1)))) = 2"
    using t by (simp add: init_def)
  have k: "poll_timeout (snd (tick (\<lambda>n s. (Inr (), s)) (Some 0)
        (init empty_store Map.empty [] 0 True 1 0 ''mail'' (Some 1)))) = 2"
    using poll_timeout_floor [where b = "init empty_store Map.empty [] 0 True 1 0 ''mail'' (Some 1)"
      and run_job = "\<lambda>n s. (Inr (), s)" and tnow = "Some 0"]
    by (simp add: init_def)
  have i: "poll_timeout (init empty_store Map.empty [] 0 False 1 0 ''mail'' (Some (-3))) = 2"
    "poll_timeout (init empty_store Map.empty [] 0 False 1 0 ''mail'' (Some 0)) = 2"
    "poll_timeout (init empty_store Map.empty [] 0 False 1 0 ''mail'' None) = 2"
    using poll_timeout_floor [where pt = "Some (-3)" and st = empty_store and reg = Map.empty
        and es = "[]" and now = 0 and sp = False and N = 1 and mt = 0 and nm = "''mail''"]
      poll_timeout_floor [where pt = "Some 0" and st = empty_store and reg = Map.empty
        and es = "[]" and now = 0 and sp = False and N = 1 and mt = 0 and nm = "''mail''"]
      poll_timeout_floor [where pt = None and st = empty_store and reg = Map.empty
        and es = "[]" and now = 0 and sp = False and N = 1 and mt = 0 and nm = "''mail''"]
    by simp_all
  have j: "poll_timeout (init empty_store Map.empty [] 0 False 1 0 ''mail'' (Some 5)) = 5"
    using poll_timeout_floor [where pt = "Some 5" and st = empty_store and reg = Map.empty
        and es = "[]" and now = 0 and sp = False and N = 1 and mt = 0 and nm = "''mail''"]
    by simp
  from i j w k show ?thesis by simp
qed

end
